theory Spec2Isabelle
  imports Main
begin

section \<open>Text\<close>

text \<open>
  A Python \<open>str\<close> is a sequence of code points. The embedding uses \<open>string\<close>, so a
  \<open>char\<close> stands for a code point below 256, and the character classes below are
  Python's own classes on that range: \<open>str.isspace\<close> (which is also what \<open>\s\<close>
  matches and what \<open>str.strip()\<close> removes), the word characters of \<open>\w\<close>
  (alphanumerics and the underscore) and the case mapping of \<open>str.lower()\<close>.
\<close>

definition is_space :: "char \<Rightarrow> bool" where
  "is_space c =
     (let n = (of_char c :: nat)
      in (9 \<le> n \<and> n \<le> 13) \<or> (28 \<le> n \<and> n \<le> 32) \<or> n = 133 \<or> n = 160)"

definition is_word :: "char \<Rightarrow> bool" where
  "is_word c =
     (let n = (of_char c :: nat)
      in (48 \<le> n \<and> n \<le> 57) \<or> (65 \<le> n \<and> n \<le> 90) \<or> n = 95 \<or> (97 \<le> n \<and> n \<le> 122)
         \<or> n = 170 \<or> n = 178 \<or> n = 179 \<or> n = 181 \<or> n = 185 \<or> n = 186
         \<or> (188 \<le> n \<and> n \<le> 190) \<or> (192 \<le> n \<and> n \<le> 214) \<or> (216 \<le> n \<and> n \<le> 246)
         \<or> 248 \<le> n)"

definition is_upper :: "char \<Rightarrow> bool" where
  "is_upper c =
     (let n = (of_char c :: nat)
      in (65 \<le> n \<and> n \<le> 90) \<or> (192 \<le> n \<and> n \<le> 214) \<or> (216 \<le> n \<and> n \<le> 222))"

definition lower_char :: "char \<Rightarrow> char" where
  "lower_char c = (if is_upper c then char_of ((of_char c :: nat) + 32) else c)"

definition str_lower :: "string \<Rightarrow> string" where
  "str_lower s = map lower_char s"

definition str_strip :: "string \<Rightarrow> string" where
  "str_strip s = rev (dropWhile is_space (rev (dropWhile is_space s)))"

section \<open>Slug derivation\<close>

text \<open>
  \<^verbatim>\<open>
  def slugify(text: str) -> str:
      text = text.lower().strip()
      text = re.sub(r'[^\w\s-]', '', text)
      text = re.sub(r'[-\s]+', '-', text)
      return text
  \<close>
  The first substitution deletes every character that is neither a word character, nor
  white space, nor a hyphen. The second replaces every maximal run of hyphens and white
  space by one hyphen.
\<close>

definition keeps :: "char \<Rightarrow> bool" where
  "keeps c = (is_word c \<or> is_space c \<or> c = CHR ''-'')"

definition sub_other :: "string \<Rightarrow> string" where
  "sub_other s = filter keeps s"

definition is_sep :: "char \<Rightarrow> bool" where
  "is_sep c = (c = CHR ''-'' \<or> is_space c)"

function sub_runs :: "string \<Rightarrow> string" where
  "sub_runs [] = []"
| "sub_runs (c # cs) =
     (if is_sep c then CHR ''-'' # sub_runs (dropWhile is_sep cs) else c # sub_runs cs)"
  by pat_completeness auto
termination
  by (relation "measure length") (auto simp: less_Suc_eq_le length_dropWhile_le)

definition slugify :: "string \<Rightarrow> string" where
  "slugify s = sub_runs (sub_other (str_strip (str_lower s)))"



definition is_digit :: "char \<Rightarrow> bool" where
  "is_digit c = (let n = (of_char c :: nat) in 48 \<le> n \<and> n \<le> 57)"

fun single_hyphens :: "string \<Rightarrow> bool" where
  "single_hyphens (a # b # cs) =
     (\<not> (a = CHR ''-'' \<and> b = CHR ''-'') \<and> single_hyphens (b # cs))"
| "single_hyphens _ = True"






section \<open>Front-matter values\<close>

text \<open>
  The values a YAML front matter gives to a key, as far as the program tells them apart:
  \<open>None\<close>, booleans, integers, strings, \<open>datetime.date\<close>, \<open>datetime.datetime\<close>
  (a subclass of \<open>date\<close>, hence the record extension) and sequences; floats and
  mappings, which the program handles like integers and sequences, are left out.
  \<open>tzinfo\<close> is the UTC offset in seconds of an aware \<open>datetime\<close>, \<open>None\<close> for a naive one.
\<close>

record date =
  year :: nat
  month :: nat
  day :: nat

record datetime = date +
  hour :: nat
  minute :: nat
  second :: nat
  microsecond :: nat
  tzinfo :: "int option"

datatype yaml =
    YNull
  | YBool bool
  | YInt int
  | YStr string
  | YDate date
  | YDateTime datetime
  | YSeq "yaml list"

fun yaml_truthy :: "yaml \<Rightarrow> bool" where
  "yaml_truthy YNull = False"
| "yaml_truthy (YBool b) = b"
| "yaml_truthy (YInt n) = (n \<noteq> 0)"
| "yaml_truthy (YStr s) = (s \<noteq> [])"
| "yaml_truthy (YDate d) = True"
| "yaml_truthy (YDateTime d) = True"
| "yaml_truthy (YSeq xs) = (xs \<noteq> [])"

definition dict_get :: "('k \<rightharpoonup> 'v) \<Rightarrow> 'k \<Rightarrow> 'v \<Rightarrow> 'v" where
  "dict_get m k d = (case m k of None \<Rightarrow> d | Some v \<Rightarrow> v)"

section \<open>Timestamps\<close>

definition digit :: "nat \<Rightarrow> char" where
  "digit d = char_of (48 + d)"

fun dec :: "nat \<Rightarrow> string" where
  "dec n = (if n < 10 then [digit n] else dec (n div 10) @ [digit (n mod 10)])"

declare dec.simps [simp del]

definition pad :: "nat \<Rightarrow> nat \<Rightarrow> string" where
  "pad w n = replicate (w - length (dec n)) CHR ''0'' @ dec n"

definition isoformat_date :: "'a date_scheme \<Rightarrow> string" where
  "isoformat_date d = pad 4 (year d) @ ''-'' @ pad 2 (month d) @ ''-'' @ pad 2 (day d)"

definition clock_time :: "datetime \<Rightarrow> string" where
  "clock_time t = pad 2 (hour t) @ '':'' @ pad 2 (minute t) @ '':'' @ pad 2 (second t)"

definition format_offset :: "int option \<Rightarrow> string" where
  "format_offset off =
     (case off of
        None \<Rightarrow> []
      | Some z \<Rightarrow>
          (let a = nat \<bar>z\<bar>; hh = a div 3600; mm = a mod 3600 div 60; ss = a mod 60
           in (if z < 0 then ''-'' else ''+'') @ pad 2 hh @ '':'' @ pad 2 mm
              @ (if ss \<noteq> 0 then '':'' @ pad 2 ss else [])))"

text \<open>\<open>value.isoformat(sep=' ', timespec='seconds')\<close>: the microseconds are dropped and
  the UTC offset of an aware value is appended.\<close>

definition isoformat_datetime :: "datetime \<Rightarrow> string" where
  "isoformat_datetime t = isoformat_date t @ '' '' @ clock_time t @ format_offset (tzinfo t)"

text \<open>\<open>strftime('%Y-%m-%d %H:%M:%S')\<close>.\<close>

definition strftime :: "datetime \<Rightarrow> string" where
  "strftime t = isoformat_date t @ '' '' @ clock_time t"

text \<open>
  \<^verbatim>\<open>
  def _format_published_at(value) -> str:
      if isinstance(value, datetime):
          return value.isoformat(sep=' ', timespec='seconds')
      if isinstance(value, date):
          return value.isoformat()
      if value is None or value == '':
          return datetime.now().strftime('%Y-%m-%d %H:%M:%S')
      return str(value)
  \<close>
  \<open>now\<close> is the reading of the clock. \<open>str_of\<close> is Python's \<open>str()\<close> on the values
  that are not strings; no statement below depends on what it returns.
\<close>

fun format_published_at :: "(yaml \<Rightarrow> string) \<Rightarrow> datetime \<Rightarrow> yaml \<Rightarrow> string" where
  "format_published_at str_of now (YDateTime t) = isoformat_datetime t"
| "format_published_at str_of now (YDate d) = isoformat_date d"
| "format_published_at str_of now YNull = strftime now"
| "format_published_at str_of now (YStr s) = (if s = [] then strftime now else s)"
| "format_published_at str_of now v = str_of v"

text \<open>The invariants of Python's \<open>date\<close> and \<open>datetime\<close> objects.\<close>

definition valid_date :: "'a date_scheme \<Rightarrow> bool" where
  "valid_date d =
     (1 \<le> year d \<and> year d \<le> 9999 \<and> 1 \<le> month d \<and> month d \<le> 12 \<and> 1 \<le> day d \<and> day d \<le> 31)"

definition valid_datetime :: "datetime \<Rightarrow> bool" where
  "valid_datetime t = (valid_date t \<and> hour t < 24 \<and> minute t < 60 \<and> second t < 60)"

text \<open>
  A format such as \<open>YYYY-MM-DD HH:MM:SS\<close>: a capital letter of the pattern stands for
  one decimal digit, every other character for itself.
\<close>

definition is_capital :: "char \<Rightarrow> bool" where
  "is_capital p = (let n = (of_char p :: nat) in 65 \<le> n \<and> n \<le> 90)"

fun fits :: "string \<Rightarrow> string \<Rightarrow> bool" where
  "fits [] [] = True"
| "fits (p # ps) (c # cs) = ((if is_capital p then is_digit c else c = p) \<and> fits ps cs)"
| "fits _ _ = False"

section \<open>The post compiler\<close>

text \<open>
  \<open>str.title()\<close> capitalises a character that follows an uncased one and lowers a
  character that follows a cased one. Three code points below 256 have a title case
  that is no code point below 256 (Python gives U+039C for U+00B5, the two letters
  \<open>Ss\<close> for U+00DF and U+0178 for U+00FF); \<open>title_char\<close> leaves them alone, so
  \<open>str_title\<close> is Python's on every text without them, and on the others it agrees
  with Python on which characters are word characters and on whether the text is empty,
  which is all that the statements below use of a derived title.
\<close>

definition is_cased :: "char \<Rightarrow> bool" where
  "is_cased c =
     (let n = (of_char c :: nat)
      in (65 \<le> n \<and> n \<le> 90) \<or> (97 \<le> n \<and> n \<le> 122) \<or> n = 170 \<or> n = 181 \<or> n = 186
         \<or> (192 \<le> n \<and> n \<le> 214) \<or> (216 \<le> n \<and> n \<le> 246) \<or> 248 \<le> n)"

definition title_char :: "char \<Rightarrow> char" where
  "title_char c =
     (let n = (of_char c :: nat)
      in if (97 \<le> n \<and> n \<le> 122) \<or> (224 \<le> n \<and> n \<le> 246) \<or> (248 \<le> n \<and> n \<le> 254)
         then char_of (n - 32) else c)"

fun title_from :: "bool \<Rightarrow> string \<Rightarrow> string" where
  "title_from previous_is_cased [] = []"
| "title_from previous_is_cased (c # cs) =
     (if previous_is_cased then lower_char c else title_char c) # title_from (is_cased c) cs"

definition str_title :: "string \<Rightarrow> string" where
  "str_title s = title_from False s"

text \<open>\<open>s.replace('-', ' ')\<close>.\<close>

definition hyphens_to_spaces :: "string \<Rightarrow> string" where
  "hyphens_to_spaces s = map (\<lambda>c. if c = CHR ''-'' then CHR '' '' else c) s"

text \<open>
  A markdown file: the stem and the suffix of its path, and what \<open>frontmatter.load\<close>
  makes of its content, either an exception or the metadata dictionary and the body.
\<close>

datatype loaded = Unparseable | Loaded "string \<rightharpoonup> yaml" string

record md_file =
  path_name :: string
  stem :: string
  suffix :: string
  load :: loaded

datatype exn = FileFormatError | AttributeError | TypeError

record post =
  slug :: yaml
  title :: yaml
  content :: string
  excerpt :: yaml
  category :: yaml
  tags :: yaml
  featured_image :: yaml
  is_published :: yaml
  published_at :: string

text \<open>
  What is outside the program: the markdown renderer, \<open>str()\<close>, the clock (its reading
  while the n-th file of a run is compiled), the configuration read from the
  environment, and the network (the outcome of the n-th round trip of a run).
\<close>

datatype json =
    JNull
  | JBool bool
  | JNum int
  | JStr string
  | JArr "json list"
  | JObj "(string \<times> json) list"

record response =
  status_code :: nat
  reason :: string
  url :: string
  content_type :: "string option"
  body_text :: string
  body_json :: "json option"

datatype outcome = RequestException string | Response response

record env =
  md_convert :: "string \<Rightarrow> string"
  str_of :: "yaml \<Rightarrow> string"
  clock :: "nat \<Rightarrow> datetime"
  API_URL :: string
  API_KEY :: string
  network :: "nat \<Rightarrow> outcome"

text \<open>\<open>slugify(title)\<close> calls \<open>title.lower()\<close>, which only a string has.\<close>

fun slugify_value :: "yaml \<Rightarrow> exn + string" where
  "slugify_value (YStr s) = Inr (slugify s)"
| "slugify_value v = Inl AttributeError"

text \<open>
  \<^verbatim>\<open>
  def parse_markdown_file(filepath: Path) -> dict:
      post = frontmatter.load(filepath)
      md = markdown.Markdown(extensions=MD_EXTENSIONS)
      html_content = md.convert(post.content)
      metadata = post.metadata
      title = metadata.get('title', filepath.stem.replace('-', ' ').title())
      slug = metadata.get('slug', slugify(title))
      ...
      return {'slug': slug, 'title': title, 'content': html_content,
              'excerpt': metadata.get('excerpt', ''),
              'category': metadata.get('category', 'general'),
              'tags': metadata.get('tags', []),
              'featured_image': metadata.get('featured_image'),
              'is_published': metadata.get('published', True),
              'published_at': _format_published_at(metadata.get('date'))}
  \<close>
  Python evaluates the default \<open>slugify(title)\<close> before \<open>get\<close> looks the key up, so a
  title that is not a string raises also when the front matter gives a slug.
\<close>

definition parse_markdown_file :: "env \<Rightarrow> datetime \<Rightarrow> md_file \<Rightarrow> exn + post" where
  "parse_markdown_file e now filepath =
     (case load filepath of
        Unparseable \<Rightarrow> Inl FileFormatError
      | Loaded metadata body \<Rightarrow>
          (let html_content = md_convert e body;
               title = dict_get metadata ''title''
                         (YStr (str_title (hyphens_to_spaces (stem filepath))))
           in case slugify_value title of
                Inl x \<Rightarrow> Inl x
              | Inr derived \<Rightarrow>
                  Inr \<lparr>slug = dict_get metadata ''slug'' (YStr derived),
                       title = title,
                       content = html_content,
                       excerpt = dict_get metadata ''excerpt'' (YStr []),
                       category = dict_get metadata ''category'' (YStr ''general''),
                       tags = dict_get metadata ''tags'' (YSeq []),
                       featured_image = dict_get metadata ''featured_image'' YNull,
                       is_published = dict_get metadata ''published'' (YBool True),
                       published_at =
                         format_published_at (str_of e) now (dict_get metadata ''date'' YNull)\<rparr>))"

text \<open>The invariant of the specification: both fields are strings and neither is empty.\<close>


fun nonempty_str :: "yaml \<Rightarrow> bool" where
  "nonempty_str (YStr s) = (s \<noteq> [])"
| "nonempty_str v = False"

section \<open>The publishing client\<close>

text \<open>
  \<open>requests.post(..., json=post_data)\<close> serialises the record with \<open>json.dumps\<close> before
  anything is sent. \<open>json.dumps\<close> raises \<open>TypeError\<close> on a \<open>date\<close> or a \<open>datetime\<close>,
  at any depth, and \<open>requests\<close> turns only a \<open>ValueError\<close> into a \<open>RequestException\<close>.
\<close>

fun json_serializable :: "yaml \<Rightarrow> bool" where
  "json_serializable (YDate d) = False"
| "json_serializable (YDateTime t) = False"
| "json_serializable (YSeq xs) = list_all json_serializable xs"
| "json_serializable v = True"

definition serializable :: "post \<Rightarrow> bool" where
  "serializable p =
     (json_serializable (slug p) \<and> json_serializable (title p) \<and> json_serializable (excerpt p)
      \<and> json_serializable (category p) \<and> json_serializable (tags p)
      \<and> json_serializable (featured_image p) \<and> json_serializable (is_published p))"

text \<open>
  The state of a run: the lines printed and the requests sent, oldest first. A printed
  line is kept as the \<open>print\<close> call that made it and the values it interpolates
  (\<open>ConfigMissing\<close> with the names the message lists; \<open>list_posts\<close> prints the four
  lines after \<open>NonJson\<close> without the indentation the other two functions use).
\<close>

datatype verb = GET | POST

record request =
  verb :: verb
  target :: string
  payload :: "post option"
  headers :: "(string \<times> string) list"

datatype line =
    ConfigMissing string
  | NetworkError string
  | ListNetworkError string
  | InvalidResponse string yaml
  | Http nat string
  | Url string
  | ContentType string
  | Body string
  | Done string yaml yaml
  | Failed yaml
  | Deleted string
  | FailedDelete string
  | Error json
  | NonJson
  | Skipping string
  | PathNotFound string
  | Publishing string string
  | Results nat nat
  | Help

record world =
  printed :: "line list"
  sent :: "request list"

definition print :: "line list \<Rightarrow> world \<Rightarrow> world" where
  "print ls w = w\<lparr>printed := printed w @ ls\<rparr>"

text \<open>A request goes out and the network answers with the outcome of this round trip.\<close>

definition round_trip :: "env \<Rightarrow> request \<Rightarrow> world \<Rightarrow> outcome \<times> world" where
  "round_trip e r w = (network e (length (sent w)), w\<lparr>sent := sent w @ [r]\<rparr>)"

text \<open>
  \<open>response.json()\<close> gives any JSON value (numbers that are not integers are left
  out). \<open>result.get(key)\<close> exists on a dictionary only, where it gives \<open>None\<close> for a
  missing key; of two members with one name the later one counts.
\<close>

fun json_get :: "json \<Rightarrow> string \<Rightarrow> exn + json option" where
  "json_get (JObj members) k = Inr (map_of (rev members) k)"
| "json_get v k = Inl AttributeError"

fun truthy :: "json \<Rightarrow> bool" where
  "truthy JNull = False"
| "truthy (JBool b) = b"
| "truthy (JNum n) = (n \<noteq> 0)"
| "truthy (JStr s) = (s \<noteq> [])"
| "truthy (JArr xs) = (xs \<noteq> [])"
| "truthy (JObj members) = (members \<noteq> [])"

definition truthy_opt :: "json option \<Rightarrow> bool" where
  "truthy_opt v = (case v of None \<Rightarrow> False | Some j \<Rightarrow> truthy j)"

text \<open>The five lines printed for a body that is not JSON; \<open>what\<close> is the headline.\<close>

definition snippet :: "response \<Rightarrow> string" where
  "snippet r = (let s = take 800 (str_strip (body_text r)) in if s \<noteq> [] then s else ''<empty response>'')"

definition invalid_response_lines :: "line \<Rightarrow> response \<Rightarrow> line list" where
  "invalid_response_lines what r =
     [what, Http (status_code r) (reason r), Url (url r),
      ContentType (case content_type r of None \<Rightarrow> [] | Some t \<Rightarrow> t), Body (snippet r)]"

text \<open>
  The end of \<open>publish_post\<close> and of \<open>delete_post\<close>: two lines, then
  \<open>result.get('error', 'Unknown error')\<close>, which raises on a body that is no dictionary.
\<close>

definition report_failure :: "line \<Rightarrow> response \<Rightarrow> json \<Rightarrow> world \<Rightarrow> (exn + bool) \<times> world" where
  "report_failure what r result w =
     (let w1 = print [what, Http (status_code r) (reason r)] w
      in case json_get result ''error'' of
           Inl x \<Rightarrow> (Inl x, w1)
         | Inr v \<Rightarrow>
             (Inr False,
              print [Error (case v of None \<Rightarrow> JStr ''Unknown error'' | Some j \<Rightarrow> j)] w1))"

text \<open>
  \<^verbatim>\<open>
  def publish_post(post_data: dict, draft: bool = False) -> bool:
      if not API_URL or not API_KEY:
          print("Error: API_URL and BLOG_API_KEY (or DASHBOARD_API_KEY) must be set in .env")
          return False
      if draft:
          post_data['is_published'] = False
      try:
          response = requests.post(f"{API_URL}?action=create", json=post_data,
              headers={'Content-Type': 'application/json', 'X-API-KEY': API_KEY}, timeout=30)
      except requests.RequestException as e:
          print(f"... Network error: {e}")
          return False
      try:
          result = response.json()
      except ValueError:
          ... five lines ...
          return False
      if response.status_code == 200 and result.get('success'):
          status = "draft" if draft or not post_data.get('is_published') else "published"
          print(f"... {status.capitalize()}: {post_data['title']} ({post_data['slug']})")
          return True
      print(f"... Failed: {post_data['title']}")
      print(f"  HTTP: {response.status_code} {response.reason}")
      print(f"  Error: {result.get('error', 'Unknown error')}")
      return False
  \<close>
\<close>

definition publish_post :: "env \<Rightarrow> post \<Rightarrow> bool \<Rightarrow> world \<Rightarrow> (exn + bool) \<times> world" where
  "publish_post e post_data0 draft w =
     (if API_URL e = [] \<or> API_KEY e = [] then
        (Inr False, print [ConfigMissing ''API_URL and BLOG_API_KEY (or DASHBOARD_API_KEY)''] w)
      else
        let post_data = (if draft then post_data0\<lparr>is_published := YBool False\<rparr> else post_data0)
        in if \<not> serializable post_data then (Inl TypeError, w)
        else
        let (reply, w1) =
              round_trip e
                \<lparr>verb = POST, target = API_URL e @ ''?action=create'', payload = Some post_data,
                 headers = [(''Content-Type'', ''application/json''), (''X-API-KEY'', API_KEY e)]\<rparr> w
        in case reply of
             RequestException x \<Rightarrow> (Inr False, print [NetworkError x] w1)
           | Response r \<Rightarrow>
               (case body_json r of
                  None \<Rightarrow>
                    (Inr False,
                     print (invalid_response_lines (InvalidResponse ''publishing'' (title post_data)) r) w1)
                | Some result \<Rightarrow>
                    if status_code r = 200 then
                      (case json_get result ''success'' of
                         Inl x \<Rightarrow> (Inl x, w1)
                       | Inr v \<Rightarrow>
                           if truthy_opt v then
                             (Inr True,
                              print [Done (if draft \<or> \<not> yaml_truthy (is_published post_data)
                                           then ''Draft'' else ''Published'')
                                       (title post_data) (slug post_data)] w1)
                           else report_failure (Failed (title post_data)) r result w1)
                    else report_failure (Failed (title post_data)) r result w1))"

text \<open>\<open>delete_post\<close> has the same shape, with no body in the request.\<close>

definition delete_post :: "env \<Rightarrow> string \<Rightarrow> world \<Rightarrow> (exn + bool) \<times> world" where
  "delete_post e sl w =
     (if API_URL e = [] \<or> API_KEY e = [] then
        (Inr False, print [ConfigMissing ''API_URL and BLOG_API_KEY''] w)
      else
        let (reply, w1) =
              round_trip e
                \<lparr>verb = POST, target = API_URL e @ ''?action=delete&slug='' @ sl, payload = None,
                 headers = [(''X-API-KEY'', API_KEY e)]\<rparr> w
        in case reply of
             RequestException x \<Rightarrow> (Inr False, print [NetworkError x] w1)
           | Response r \<Rightarrow>
               (case body_json r of
                  None \<Rightarrow>
                    (Inr False,
                     print (invalid_response_lines (InvalidResponse ''deleting'' (YStr sl)) r) w1)
                | Some result \<Rightarrow>
                    if status_code r = 200 then
                      (case json_get result ''success'' of
                         Inl x \<Rightarrow> (Inl x, w1)
                       | Inr v \<Rightarrow>
                           if truthy_opt v then (Inr True, print [Deleted sl] w1)
                           else report_failure (FailedDelete sl) r result w1)
                    else report_failure (FailedDelete sl) r result w1))"

text \<open>
  \<^verbatim>\<open>
  def list_posts() -> None:
      if not API_URL:
          print("Error: API_URL must be set in .env")
          return
      try:
          response = requests.get(f"{API_URL}?action=posts&limit=100", timeout=30)
      except requests.RequestException as e:
          print(f"Network error: {e}")
          return
      try:
          result = response.json()
      except ValueError:
          ... five lines ...
          return

          if 'posts' in result:
              ... the table and the total ...
          else:
              print(f"Error: {result.get('error', 'Unknown error')}")
  \<close>
  The block that prints the table is indented under the \<open>except\<close> clause, after its
  \<open>return\<close>: no control path reaches it, and the function ends where the \<open>try\<close>
  statement ends. That is the last case below.
\<close>

definition list_posts :: "env \<Rightarrow> world \<Rightarrow> world" where
  "list_posts e w =
     (if API_URL e = [] then print [ConfigMissing ''API_URL''] w
      else
        let (reply, w1) =
              round_trip e
                \<lparr>verb = GET, target = API_URL e @ ''?action=posts&limit=100'', payload = None,
                 headers = []\<rparr> w
        in case reply of
             RequestException x \<Rightarrow> print [ListNetworkError x] w1
           | Response r \<Rightarrow>
               (case body_json r of
                  None \<Rightarrow> print (invalid_response_lines NonJson r) w1
                | Some result \<Rightarrow> w1))"

section \<open>Paths and the command line\<close>

text \<open>
  What a path names: nothing, a regular file, a directory (given by
  \<open>sorted(path.glob('**/*.md'))\<close>, the markdown files below it in order), or something
  that is neither a file nor a directory.
\<close>

datatype node = Absent | RegularFile md_file | Directory "md_file list" | Special

text \<open>
  \<^verbatim>\<open>
      for md_file in sorted(path.glob('**/*.md')):
          post_data = parse_markdown_file(md_file)
          if publish_post(post_data, draft):
              success += 1
          else:
              failed += 1
  \<close>
\<close>

fun publish_all ::
  "env \<Rightarrow> bool \<Rightarrow> md_file list \<Rightarrow> nat \<times> nat \<Rightarrow> world \<Rightarrow> (exn + nat \<times> nat) \<times> world" where
  "publish_all e draft [] (success, failed) w = (Inr (success, failed), w)"
| "publish_all e draft (md_file # rest) (success, failed) w =
     (case parse_markdown_file e (clock e (success + failed)) md_file of
        Inl x \<Rightarrow> (Inl x, w)
      | Inr post_data \<Rightarrow>
          (case publish_post e post_data draft w of
             (Inl x, w1) \<Rightarrow> (Inl x, w1)
           | (Inr True, w1) \<Rightarrow> publish_all e draft rest (success + 1, failed) w1
           | (Inr False, w1) \<Rightarrow> publish_all e draft rest (success, failed + 1) w1))"

text \<open>
  \<^verbatim>\<open>
  def process_path(path: Path, draft: bool = False) -> tuple[int, int]:
      success = 0
      failed = 0
      if path.is_file():
          if path.suffix.lower() in ['.md', '.markdown']:
              post_data = parse_markdown_file(path)
              if publish_post(post_data, draft):
                  success += 1
              else:
                  failed += 1
          else:
              print(f"Skipping non-markdown file: {path}")
      elif path.is_dir():
          for md_file in sorted(path.glob('**/*.md')):
              ...
      return success, failed
  \<close>
\<close>

definition process_path :: "env \<Rightarrow> node \<Rightarrow> bool \<Rightarrow> world \<Rightarrow> (exn + nat \<times> nat) \<times> world" where
  "process_path e path draft w =
     (case path of
        RegularFile f \<Rightarrow>
          if str_lower (suffix f) \<in> set [''.md'', ''.markdown''] then
            (case parse_markdown_file e (clock e 0) f of
               Inl x \<Rightarrow> (Inl x, w)
             | Inr post_data \<Rightarrow>
                 (case publish_post e post_data draft w of
                    (Inl x, w1) \<Rightarrow> (Inl x, w1)
                  | (Inr True, w1) \<Rightarrow> (Inr (1, 0), w1)
                  | (Inr False, w1) \<Rightarrow> (Inr (0, 1), w1)))
          else (Inr (0, 0), print [Skipping (path_name f)] w)
      | Directory files \<Rightarrow> publish_all e draft files (0, 0) w
      | _ \<Rightarrow> (Inr (0, 0), w))"

text \<open>
  The command line after \<open>argparse\<close>, and \<open>main\<close>. The result is the exit status of the
  process: 0 when \<open>main\<close> returns, the argument of \<open>sys.exit\<close>, or the exception that
  leaves \<open>main\<close> (the interpreter then prints a traceback and exits with status 1).
\<close>

record args =
  path_arg :: "string option"
  draft_arg :: bool
  list_arg :: bool
  delete_arg :: "string option"

text \<open>An argument counts when it is there and not the empty string.\<close>

fun given :: "string option \<Rightarrow> string option" where
  "given None = None"
| "given (Some s) = (if s = [] then None else Some s)"

definition main :: "env \<Rightarrow> (string \<Rightarrow> node) \<Rightarrow> args \<Rightarrow> world \<Rightarrow> (exn + nat) \<times> world" where
  "main e fs a w =
     (if list_arg a then (Inr 0, list_posts e w)
      else case given (delete_arg a) of
        Some sl \<Rightarrow>
          (case delete_post e sl w of
             (Inl x, w1) \<Rightarrow> (Inl x, w1)
           | (Inr b, w1) \<Rightarrow> (Inr 0, w1))
      | None \<Rightarrow>
          (case given (path_arg a) of
             None \<Rightarrow> (Inr 0, print [Help] w)
           | Some p \<Rightarrow>
               (case fs p of
                  Absent \<Rightarrow> (Inr 1, print [PathNotFound p] w)
                | path \<Rightarrow>
                    (case process_path e path (draft_arg a)
                            (print [Publishing (if draft_arg a then ''draft'' else ''post'') p] w) of
                       (Inl x, w1) \<Rightarrow> (Inl x, w1)
                     | (Inr (success, failed), w1) \<Rightarrow>
                         (Inr (if failed > 0 then 1 else 0),
                          print [Results success failed] w1)))))"

section \<open>Outcomes of a round trip\<close>

text \<open>
  The condition of the specification for success: the HTTP status is 200 and the parsed
  JSON body contains a truthy \<open>success\<close> field.
\<close>

definition accepted :: "outcome \<Rightarrow> bool" where
  "accepted reply =
     (case reply of
        RequestException x \<Rightarrow> False
      | Response r \<Rightarrow>
          status_code r = 200 \<and>
          (case body_json r of
             Some (JObj members) \<Rightarrow> truthy_opt (map_of (rev members) ''success'')
           | _ \<Rightarrow> False))"

text \<open>
  The replies of a server that keeps to the contract of the API: when the body is JSON
  at all, it is a JSON object.
\<close>

definition dict_reply :: "outcome \<Rightarrow> bool" where
  "dict_reply reply =
     (case reply of
        RequestException x \<Rightarrow> True
      | Response r \<Rightarrow>
          (case body_json r of
             None \<Rightarrow> True
           | Some (JObj members) \<Rightarrow> True
           | Some v \<Rightarrow> False))"

definition configured :: "env \<Rightarrow> bool" where
  "configured e = (API_URL e \<noteq> [] \<and> API_KEY e \<noteq> [])"

text \<open>The request that \<open>publish_post\<close> sends for a record.\<close>

definition create_request :: "env \<Rightarrow> post \<Rightarrow> request" where
  "create_request e post_data =
     \<lparr>verb = POST, target = API_URL e @ ''?action=create'', payload = Some post_data,
      headers = [(''Content-Type'', ''application/json''), (''X-API-KEY'', API_KEY e)]\<rparr>"


text \<open>
  The record as \<open>publish_post\<close> sends it, and the files of a batch that reach the
  network: they parse, and their record can be serialised.
\<close>

definition outgoing :: "bool \<Rightarrow> post \<Rightarrow> post" where
  "outgoing draft p = (if draft then p\<lparr>is_published := YBool False\<rparr> else p)"

definition ready :: "env \<Rightarrow> bool \<Rightarrow> md_file \<Rightarrow> bool" where
  "ready e draft f =
     (\<forall>now. case parse_markdown_file e now f of
              Inl x \<Rightarrow> False
            | Inr p \<Rightarrow> serializable (outgoing draft p))"

text \<open>
  The requests of a batch that processes every file: one per file, in the order of the
  files, each with the record compiled from its file (at the reading of the clock for
  that file) as \<open>publish_post\<close> sends it.
\<close>

definition batch_requests :: "env \<Rightarrow> bool \<Rightarrow> md_file list \<Rightarrow> request list" where
  "batch_requests e draft files =
     map (\<lambda>(i, f). create_request e (outgoing draft (projr (parse_markdown_file e (clock e i) f))))
       (enumerate 0 files)"

section \<open>Sample inputs\<close>

text \<open>Concrete files, replies and environments, used where a statement is run on an input.\<close>

definition ex_now :: datetime where
  "ex_now = \<lparr>year = 2026, month = 11, day = 4, hour = 9, minute = 5, second = 7,
             microsecond = 123456, tzinfo = None\<rparr>"

definition ex_reply :: "nat \<Rightarrow> json option \<Rightarrow> outcome" where
  "ex_reply code j =
     Response \<lparr>status_code = code, reason = ''-'', url = ''https://example.com/blog.php'',
               content_type = Some ''application/json'', body_text = ''-'', body_json = j\<rparr>"

definition ex_ok :: outcome where
  "ex_ok = ex_reply 200 (Some (JObj [(''success'', JBool True)]))"

definition ex_refused :: outcome where
  "ex_refused = ex_reply 200 (Some (JObj [(''success'', JBool False), (''error'', JStr ''duplicate slug'')]))"

definition ex_env :: "(nat \<Rightarrow> outcome) \<Rightarrow> env" where
  "ex_env net =
     \<lparr>md_convert = (\<lambda>body. body), str_of = (\<lambda>v. []), clock = (\<lambda>n. ex_now),
      API_URL = ''https://example.com/blog.php'', API_KEY = ''secret'', network = net\<rparr>"

definition ex_world :: world where
  "ex_world = \<lparr>printed = [], sent = []\<rparr>"

definition ex_file :: "string \<Rightarrow> (string \<rightharpoonup> yaml) \<Rightarrow> md_file" where
  "ex_file name metadata =
     \<lparr>path_name = ''posts/'' @ name @ ''.md'', stem = name, suffix = ''.md'',
      load = Loaded metadata ''Hello''\<rparr>"

definition ex_broken :: md_file where
  "ex_broken = \<lparr>path_name = ''posts/a-broken.md'', stem = ''a-broken'', suffix = ''.md'',
                load = Unparseable\<rparr>"

definition ex_stamp :: datetime where
  "ex_stamp = \<lparr>year = 2024, month = 3, day = 1, hour = 9, minute = 0, second = 0,
               microsecond = 0, tzinfo = None\<rparr>"

definition ex_day :: date where
  "ex_day = \<lparr>year = 2024, month = 3, day = 1\<rparr>"

definition ex_post :: post where
  "ex_post =
     \<lparr>slug = YStr ''my-first-post'', title = YStr ''My First Post'', content = ''Hello'',
      excerpt = YStr [], category = YStr ''general'', tags = YSeq [], featured_image = YNull,
      is_published = YBool True, published_at = ''2026-11-04 09:05:07''\<rparr>"

definition ex_listing :: json where
  "ex_listing =
     JObj [(''posts'',
            JArr [JObj [(''slug'', JStr ''my-first-post''), (''title'', JStr ''My First Post''),
                        (''category'', JStr ''general''),
                        (''published_at'', JStr ''2026-11-04 09:05:07'')]])]"

definition ex_args :: "string \<Rightarrow> args" where
  "ex_args p = \<lparr>path_arg = Some p, draft_arg = False, list_arg = False, delete_arg = None\<rparr>"

definition ex_files :: "md_file list" where
  "ex_files = [ex_file ''a'' Map.empty, ex_file ''b'' Map.empty, ex_file ''c'' Map.empty,
               ex_file ''d'' Map.empty]"

definition ex_net :: "nat \<Rightarrow> outcome" where
  "ex_net n = (if n = 2 then ex_refused else ex_ok)"

section \<open>Properties of the slug derivation\<close>

lemma of_char_lower_char:
  "is_upper c \<Longrightarrow> (of_char (lower_char c) :: nat) = of_char c + 32"
  by (auto simp: lower_char_def is_upper_def Let_def)

lemma is_upper_cases:
  assumes "is_upper c"
  obtains "65 \<le> (of_char c :: nat)" "(of_char c :: nat) \<le> 90"
  | "192 \<le> (of_char c :: nat)" "(of_char c :: nat) \<le> 214"
  | "216 \<le> (of_char c :: nat)" "(of_char c :: nat) \<le> 222"
  using assms by (auto simp: is_upper_def Let_def)

lemma is_word_lower_char: "is_word (lower_char c) = is_word c"
proof (cases "is_upper c")
  case True
  note m = of_char_lower_char[OF True]
  from True show ?thesis
  proof (cases rule: is_upper_cases)
    case 1
    then show ?thesis by (simp add: is_word_def m)
  next
    case 2
    then show ?thesis by (simp add: is_word_def m)
  next
    case 3
    then show ?thesis by (simp add: is_word_def m)
  qed
next
  case False
  then show ?thesis by (simp add: lower_char_def)
qed

lemma is_space_cases:
  assumes "is_space c"
  obtains "9 \<le> (of_char c :: nat)" "(of_char c :: nat) \<le> 13"
  | "28 \<le> (of_char c :: nat)" "(of_char c :: nat) \<le> 32"
  | "(of_char c :: nat) = 133" | "(of_char c :: nat) = 160"
  using assms by (auto simp: is_space_def Let_def)

lemma word_not_space: "is_space c \<Longrightarrow> \<not> is_word c"
proof -
  assume "is_space c"
  then show ?thesis
  proof (cases rule: is_space_cases)
    case 1
    then show ?thesis by (simp add: is_word_def)
  next
    case 2
    then show ?thesis by (simp add: is_word_def)
  next
    case 3
    then show ?thesis by (simp add: is_word_def)
  next
    case 4
    then show ?thesis by (simp add: is_word_def)
  qed
qed


lemma lower_char_not_upper: "\<not> is_upper (lower_char c)"
proof (cases "is_upper c")
  case True
  from of_char_lower_char[OF True] True show ?thesis
    by (auto simp: is_upper_def Let_def)
next
  case False
  then show ?thesis by (simp add: lower_char_def)
qed


lemma hyphen_lower_char: "(lower_char c = CHR ''-'') = (c = CHR ''-'')"
proof (cases "is_upper c")
  case True
  from of_char_lower_char[OF True] True have "(of_char (lower_char c) :: nat) \<noteq> 45" "(of_char c :: nat) \<noteq> 45"
    by (auto simp: is_upper_def Let_def)
  then show ?thesis by auto
next
  case False
  then show ?thesis by (simp add: lower_char_def)
qed

lemma hyphen_not_space: "\<not> is_space CHR ''-''"
  by (simp add: is_space_def)

lemma hyphen_not_word: "\<not> is_word CHR ''-''"
  by (simp add: is_word_def)

lemma hyphen_not_upper: "\<not> is_upper CHR ''-''"
  by (simp add: is_upper_def)

lemma str_lower_fixed: "\<forall>c\<in>set s. \<not> is_upper c \<Longrightarrow> str_lower s = s"
  by (induction s) (auto simp: str_lower_def lower_char_def)

lemma str_strip_fixed: "\<forall>c\<in>set s. \<not> is_space c \<Longrightarrow> str_strip s = s"
proof -
  assume a: "\<forall>c\<in>set s. \<not> is_space c"
  then have "dropWhile is_space s = s" by (cases s) auto
  moreover from a have "dropWhile is_space (rev s) = rev s" by (cases "rev s") (auto simp: dropWhile_eq_self_iff)
  ultimately show ?thesis by (simp add: str_strip_def)
qed

lemma sub_other_fixed: "\<forall>c\<in>set s. keeps c \<Longrightarrow> sub_other s = s"
  by (simp add: sub_other_def)

lemma set_str_strip: "set (str_strip s) \<subseteq> set s"
  by (auto simp: str_strip_def dest!: set_dropWhileD)

lemma sub_runs_chars: "c \<in> set (sub_runs s) \<Longrightarrow> c = CHR ''-'' \<or> (c \<in> set s \<and> \<not> is_sep c)"
  by (induction s rule: sub_runs.induct) (auto split: if_splits dest: set_dropWhileD)

lemma sub_runs_hd: "s \<noteq> [] \<Longrightarrow> \<not> is_sep (hd s) \<Longrightarrow> sub_runs s \<noteq> [] \<and> hd (sub_runs s) = hd s"
  by (cases s) auto

lemma dropWhile_hd: "dropWhile P xs \<noteq> [] \<Longrightarrow> \<not> P (hd (dropWhile P xs))"
  by (simp add: hd_dropWhile)

lemma single_hyphens_Cons:
  "single_hyphens (x # xs) = ((x = CHR ''-'' \<longrightarrow> xs = [] \<or> hd xs \<noteq> CHR ''-'') \<and> single_hyphens xs)"
  by (cases xs) auto

lemma sub_runs_single: "single_hyphens (sub_runs s)"
proof (induction s rule: sub_runs.induct)
  case 1
  show ?case by simp
next
  case (2 c cs)
  show ?case
  proof (cases "is_sep c")
    case True
    let ?r = "dropWhile is_sep cs"
    have "sub_runs ?r = [] \<or> hd (sub_runs ?r) \<noteq> CHR ''-''"
    proof (cases "?r = []")
      case True
      then have "sub_runs ?r = []" by (simp only: sub_runs.simps)
      then show ?thesis ..
    next
      case False
      then have nh: "\<not> is_sep (hd ?r)" by (rule dropWhile_hd)
      have h: "hd (sub_runs ?r) = hd ?r"
        by (rule sub_runs_hd[OF False nh, THEN conjunct2])
      from nh have "hd ?r \<noteq> CHR ''-''" unfolding is_sep_def by blast
      then show ?thesis by (simp only: h simp_thms)
    qed
    with True 2 show ?thesis by (simp add: single_hyphens_Cons)
  next
    case False
    with 2 show ?thesis by (auto simp: single_hyphens_Cons is_sep_def)
  qed
qed

lemma sub_runs_fixed:
  "\<forall>c\<in>set s. \<not> is_space c \<Longrightarrow> single_hyphens s \<Longrightarrow> sub_runs s = s"
proof (induction s)
  case Nil
  show ?case by simp
next
  case (Cons c cs)
  then have ih: "sub_runs cs = cs" by (simp add: single_hyphens_Cons)
  show ?case
  proof (cases "is_sep c")
    case True
    with Cons.prems have c: "c = CHR ''-''" by (auto simp: is_sep_def)
    with Cons.prems have "cs = [] \<or> hd cs \<noteq> CHR ''-''" by (simp add: single_hyphens_Cons)
    with Cons.prems have "dropWhile is_sep cs = cs" by (cases cs) (auto simp: is_sep_def)
    with True c ih show ?thesis by simp
  next
    case False
    with ih show ?thesis by simp
  qed
qed

lemma slugify_chars:
  assumes "c \<in> set (slugify s)"
  shows "c = CHR ''-'' \<or> (is_word c \<and> \<not> is_upper c \<and> c \<in> lower_char ` set s)"
proof -
  from assms sub_runs_chars have "c = CHR ''-'' \<or> (c \<in> set (sub_other (str_strip (str_lower s))) \<and> \<not> is_sep c)"
    unfolding slugify_def by blast
  then show ?thesis
  proof
    assume "c = CHR ''-''" then show ?thesis ..
  next
    assume a: "c \<in> set (sub_other (str_strip (str_lower s))) \<and> \<not> is_sep c"
    then have k: "keeps c" and m: "c \<in> set (str_strip (str_lower s))" by (auto simp: sub_other_def)
    from m set_str_strip have "c \<in> set (str_lower s)" by blast
    then have l: "c \<in> lower_char ` set s" by (simp add: str_lower_def)
    then have "\<not> is_upper c" using lower_char_not_upper by auto
    moreover from a k have "is_word c" by (auto simp: keeps_def is_sep_def)
    ultimately show ?thesis using l by blast
  qed
qed

lemma slugify_char_cases:
  assumes "c \<in> set (slugify s)"
  obtains "c = CHR ''-''" | "is_word c" "\<not> is_upper c"
  using slugify_chars[OF assms] by (elim disjE conjE)


text \<open>
  Claim C6. Slug derivation is idempotent: \<open>slugify (slugify s)\<close> is \<open>slugify s\<close> for
  every text \<open>s\<close>, so a text that is already a slug is returned unchanged.
\<close>

theorem slugify_idempotent: "slugify (slugify s) = slugify s"
proof -
  define t where "t = slugify s"
  have up: "\<not> is_upper c" if "c \<in> set t" for c
    using that unfolding t_def
    by (cases rule: slugify_char_cases) (simp_all only: hyphen_not_upper not_False_eq_True)
  have sp: "\<not> is_space c" if "c \<in> set t" for c
    using that unfolding t_def
  proof (cases rule: slugify_char_cases)
    case 1
    then show ?thesis by (simp only: hyphen_not_space not_False_eq_True)
  next
    case 2
    then show ?thesis using word_not_space by blast
  qed
  have kp: "keeps c" if "c \<in> set t" for c
    using that unfolding t_def
    by (cases rule: slugify_char_cases) (simp_all only: keeps_def simp_thms)
  have sh: "single_hyphens t"
    unfolding t_def slugify_def by (rule sub_runs_single)
  from up have up': "\<forall>c\<in>set t. \<not> is_upper c" ..
  from sp have sp': "\<forall>c\<in>set t. \<not> is_space c" ..
  from kp have kp': "\<forall>c\<in>set t. keeps c" ..
  have "slugify t = sub_runs (sub_other (str_strip (str_lower t)))"
    by (simp only: slugify_def)
  also have "\<dots> = sub_runs (sub_other (str_strip t))"
    by (simp only: str_lower_fixed[OF up'])
  also have "\<dots> = sub_runs (sub_other t)"
    by (simp only: str_strip_fixed[OF sp'])
  also have "\<dots> = sub_runs t"
    by (simp only: sub_other_fixed[OF kp'])
  also have "\<dots> = t"
    by (rule sub_runs_fixed[OF sp' sh])
  finally show ?thesis unfolding t_def .
qed



lemma strip_keeps_hd:
  assumes "\<not> P x" shows "rev (dropWhile P (rev (dropWhile P (x # xs)))) = x # rev (dropWhile P (rev xs))"
  using assms by (simp add: dropWhile_append3)

lemma strip_keeps_last:
  assumes "\<not> P x" shows "rev (dropWhile P (rev (dropWhile P (xs @ [x])))) = dropWhile P xs @ [x]"
  using assms by (simp add: dropWhile_append3)

lemma sub_runs_last:
  "\<not> is_sep x \<Longrightarrow> sub_runs (ys @ [x]) \<noteq> [] \<and> last (sub_runs (ys @ [x])) = x"
  by (induction ys rule: sub_runs.induct) (simp_all add: dropWhile_append3)

lemma word_not_sep: "is_word c \<Longrightarrow> \<not> is_sep c"
  using word_not_space[of c] hyphen_not_word by (auto simp: is_sep_def)

lemma slugify_hd:
  assumes "t \<noteq> []" "is_word (hd t)"
  shows "slugify t \<noteq> [] \<and> hd (slugify t) = lower_char (hd t)"
proof -
  from assms(1) obtain x xs where t: "t = x # xs" by (cases t) auto
  let ?x = "lower_char x"
  from assms(2) t have w: "is_word ?x" by (simp add: is_word_lower_char)
  then have ns: "\<not> is_space ?x" using word_not_space by blast
  from w have nsep: "\<not> is_sep ?x" by (rule word_not_sep)
  have "str_strip (str_lower t) = ?x # rev (dropWhile is_space (rev (map lower_char xs)))"
    unfolding str_strip_def str_lower_def t list.map by (rule strip_keeps_hd[of is_space, OF ns])
  then have "sub_other (str_strip (str_lower t)) = ?x # sub_other (rev (dropWhile is_space (rev (map lower_char xs))))"
    using w by (simp add: sub_other_def keeps_def)
  then show ?thesis using nsep t by (simp add: slugify_def)
qed

lemma slugify_last:
  assumes "t \<noteq> []" "is_word (last t)"
  shows "slugify t \<noteq> [] \<and> last (slugify t) = lower_char (last t)"
proof -
  from assms(1) obtain x xs where t: "t = xs @ [x]" by (cases t rule: rev_cases) auto
  let ?x = "lower_char x"
  from assms(2) t have w: "is_word ?x" by (simp add: is_word_lower_char)
  then have ns: "\<not> is_space ?x" using word_not_space by blast
  from w have nsep: "\<not> is_sep ?x" by (rule word_not_sep)
  have "str_strip (str_lower t) = dropWhile is_space (map lower_char xs) @ [?x]"
    unfolding str_strip_def str_lower_def t map_append list.map by (rule strip_keeps_last[of is_space, OF ns])
  then have "sub_other (str_strip (str_lower t)) = sub_other (dropWhile is_space (map lower_char xs)) @ [?x]"
    using w by (simp add: sub_other_def keeps_def)
  then show ?thesis using sub_runs_last[OF nsep] t by (simp add: slugify_def)
qed























section \<open>Properties of the timestamps\<close>


lemma of_char_digit: "d < 10 \<Longrightarrow> (of_char (digit d) :: nat) = 48 + d"
  by (simp add: digit_def)

lemma is_digit_digit: "d < 10 \<Longrightarrow> is_digit (digit d)"
  by (simp add: is_digit_def of_char_digit)

lemma dec_digits: "list_all is_digit (dec n)"
proof (induction n rule: dec.induct)
  case (1 n)
  show ?case
  proof (cases "n < 10")
    case True
    then show ?thesis by (subst dec.simps) (simp add: is_digit_digit)
  next
    case False
    with 1 show ?thesis by (subst dec.simps) (simp add: is_digit_digit)
  qed
qed

lemma length_dec: "n < 10 ^ k \<Longrightarrow> 0 < k \<Longrightarrow> length (dec n) \<le> k"
proof (induction k arbitrary: n)
  case 0
  then show ?case by simp
next
  case (Suc k)
  show ?case
  proof (cases "n < 10")
    case True
    then show ?thesis by (subst dec.simps) simp
  next
    case False
    with Suc.prems have k: "0 < k" by (cases k) auto
    from Suc.prems have "n div 10 < 10 ^ k" by (simp add: less_mult_imp_div_less mult.commute)
    from Suc.IH[OF this k] False show ?thesis by (subst dec.simps) simp
  qed
qed

lemma is_digit_zero: "is_digit CHR ''0''"
  by (simp add: is_digit_def)

lemma pad_digits: "list_all is_digit (pad w n)"
proof -
  have "list_all is_digit (replicate (w - length (dec n)) CHR ''0'')"
    by (simp add: list_all_iff is_digit_zero)
  with dec_digits[of n] show ?thesis by (simp add: pad_def)
qed

lemma length_pad: "n < 10 ^ k \<Longrightarrow> 0 < k \<Longrightarrow> length (pad k n) = k"
  using length_dec[of n k] by (simp add: pad_def)

lemma fits_append: "fits p s \<Longrightarrow> fits q t \<Longrightarrow> fits (p @ q) (s @ t)"
  by (induction p s rule: fits.induct) auto

lemma fits_digits:
  "list_all is_capital p \<Longrightarrow> list_all is_digit s \<Longrightarrow> length p = length s \<Longrightarrow> fits p s"
  by (induction p s rule: fits.induct) auto

lemma fits2: "n < 100 \<Longrightarrow> is_capital a \<Longrightarrow> fits [a, a] (pad 2 n)"
  by (rule fits_digits) (simp_all add: pad_digits length_pad)

lemma fits4: "n < 10000 \<Longrightarrow> is_capital a \<Longrightarrow> fits [a, a, a, a] (pad 4 n)"
  by (rule fits_digits) (simp_all add: pad_digits length_pad)

lemma capitals: "is_capital CHR ''Y''" "is_capital CHR ''M''" "is_capital CHR ''D''"
  "is_capital CHR ''H''" "is_capital CHR ''S''"
  by (simp_all add: is_capital_def)

lemma fits_sep: "fits ''-'' ''-''" "fits '':'' '':''" "fits '' '' '' ''"
  by (simp_all add: is_capital_def)

lemma fits_date:
  assumes "valid_date d"
  shows "fits ''YYYY-MM-DD'' (isoformat_date d)"
proof -
  from assms have y: "year d < 10000" and m: "month d < 100" and dd: "day d < 100"
    by (simp_all add: valid_date_def)
  have "fits (''YYYY'' @ ''-'' @ ''MM'' @ ''-'' @ ''DD'') (isoformat_date d)"
    unfolding isoformat_date_def
    by (intro fits_append fits4[OF y] fits2[OF m] fits2[OF dd] capitals fits_sep)
  then show ?thesis by simp
qed

lemma fits_clock:
  assumes "valid_datetime t"
  shows "fits ''HH:MM:SS'' (clock_time t)"
proof -
  from assms have h: "hour t < 100" and m: "minute t < 100" and s: "second t < 100"
    by (simp_all add: valid_datetime_def)
  have "fits (''HH'' @ '':'' @ ''MM'' @ '':'' @ ''SS'') (clock_time t)"
    unfolding clock_time_def
    by (intro fits_append fits2[OF h] fits2[OF m] fits2[OF s] capitals fits_sep)
  then show ?thesis by simp
qed

lemma fits_strftime:
  assumes "valid_datetime t"
  shows "fits ''YYYY-MM-DD HH:MM:SS'' (strftime t)"
proof -
  from assms have d: "valid_date t" by (simp add: valid_datetime_def)
  have "fits (''YYYY-MM-DD'' @ '' '' @ ''HH:MM:SS'') (strftime t)"
    unfolding strftime_def
    by (intro fits_append fits_date[OF d] fits_clock[OF assms] fits_sep)
  then show ?thesis by simp
qed

lemma isoformat_naive: "tzinfo t = None \<Longrightarrow> isoformat_datetime t = strftime t"
  by (simp add: isoformat_datetime_def strftime_def format_offset_def)

lemma char_of_eq: "(of_char c :: nat) = n \<Longrightarrow> char_of n = c"
  by auto

lemma digit_chars:
  "digit 0 = CHR ''0''" "digit 1 = CHR ''1''" "digit 2 = CHR ''2''" "digit 3 = CHR ''3''"
  "digit 4 = CHR ''4''" "digit 5 = CHR ''5''" "digit 6 = CHR ''6''" "digit 7 = CHR ''7''"
  "digit 8 = CHR ''8''" "digit 9 = CHR ''9''" "digit (Suc 0) = CHR ''1''"
  unfolding digit_def by (rule char_of_eq, simp)+

lemmas stamp_simps = isoformat_datetime_def isoformat_date_def clock_time_def format_offset_def
  strftime_def pad_def dec.simps digit_chars Let_def

lemma parse_published_at:
  assumes "parse_markdown_file e now f = Inr p" "load f = Loaded md body"
  shows "published_at p = format_published_at (str_of e) now (dict_get md ''date'' YNull)"
  using assms by (auto simp: parse_markdown_file_def Let_def split: sum.splits)

lemma aware_stamp:
  "format_published_at s ex_now (YDateTime (ex_stamp\<lparr>tzinfo := Some 0\<rparr>))
     = ''2024-03-01 09:00:00+00:00''"
  by (simp add: ex_stamp_def stamp_simps)

text \<open>
  Claim C8, as the specification states it, fails for a \<open>datetime\<close> that carries a time
  zone, which is what the YAML timestamp \<open>2024-03-01 09:00:00Z\<close> is loaded as:
  \<open>isoformat\<close> appends the UTC offset, and the result is not of the form
  \<open>YYYY-MM-DD HH:MM:SS\<close>.
\<close>

theorem published_at_aware_datetime:
  "format_published_at (\<lambda>v. []) ex_now (YDateTime (ex_stamp\<lparr>tzinfo := Some 0\<rparr>))
     = ''2024-03-01 09:00:00+00:00''
   \<and> \<not> fits ''YYYY-MM-DD HH:MM:SS''
         (format_published_at (\<lambda>v. []) ex_now (YDateTime (ex_stamp\<lparr>tzinfo := Some 0\<rparr>)))
   \<and> published_at (projr (parse_markdown_file (ex_env (\<lambda>n. ex_ok)) ex_now
        (ex_file ''post'' [''date'' \<mapsto> YDateTime (ex_stamp\<lparr>tzinfo := Some (- 18000)\<rparr>)])))
     = ''2024-03-01 09:00:00-05:00''"
proof (intro conjI)
  show "format_published_at (\<lambda>v. []) ex_now (YDateTime (ex_stamp\<lparr>tzinfo := Some 0\<rparr>))
     = ''2024-03-01 09:00:00+00:00''" by (rule aware_stamp)
  show "\<not> fits ''YYYY-MM-DD HH:MM:SS''
         (format_published_at (\<lambda>v. []) ex_now (YDateTime (ex_stamp\<lparr>tzinfo := Some 0\<rparr>)))"
    by (subst aware_stamp) (simp add: is_capital_def is_digit_def)
  show "published_at (projr (parse_markdown_file (ex_env (\<lambda>n. ex_ok)) ex_now
        (ex_file ''post'' [''date'' \<mapsto> YDateTime (ex_stamp\<lparr>tzinfo := Some (- 18000)\<rparr>)])))
     = ''2024-03-01 09:00:00-05:00''"
    by (simp add: parse_markdown_file_def ex_file_def ex_env_def dict_get_def ex_stamp_def
        stamp_simps)
qed

text \<open>
  Claim C8, amended. In the record's \<open>published_at\<close> field, a front-matter \<open>datetime\<close>
  without a time zone becomes \<open>YYYY-MM-DD HH:MM:SS\<close> (any \<open>datetime\<close> becomes that
  text followed by its UTC offset, if it has one), a bare date becomes \<open>YYYY-MM-DD\<close>,
  and an absent, null or empty value becomes the reading of the clock at second
  precision, again of the form \<open>YYYY-MM-DD HH:MM:SS\<close>.
\<close>

theorem published_at_normalised:
  assumes "parse_markdown_file e now f = Inr p" and "load f = Loaded md body"
  shows "(md ''date'' = Some (YDateTime t) \<and> valid_datetime t \<and> tzinfo t = None
            \<longrightarrow> fits ''YYYY-MM-DD HH:MM:SS'' (published_at p))
       \<and> (md ''date'' = Some (YDateTime t)
            \<longrightarrow> published_at p = strftime t @ format_offset (tzinfo t))
       \<and> (md ''date'' = Some (YDate d) \<and> valid_date d \<longrightarrow> fits ''YYYY-MM-DD'' (published_at p))
       \<and> (md ''date'' = None \<or> md ''date'' = Some YNull \<or> md ''date'' = Some (YStr [])
            \<longrightarrow> published_at p = strftime now)
       \<and> (valid_datetime now \<and> 1000 \<le> year now \<longrightarrow> fits ''YYYY-MM-DD HH:MM:SS'' (strftime now))"
proof -
  note pa = parse_published_at[OF assms]
  have 1: "fits ''YYYY-MM-DD HH:MM:SS'' (published_at p)"
    if "md ''date'' = Some (YDateTime t)" "valid_datetime t" "tzinfo t = None"
    using that by (simp add: pa dict_get_def isoformat_naive fits_strftime)
  have 2: "published_at p = strftime t @ format_offset (tzinfo t)"
    if "md ''date'' = Some (YDateTime t)"
    using that by (simp add: pa dict_get_def isoformat_datetime_def strftime_def)
  have 3: "fits ''YYYY-MM-DD'' (published_at p)" if "md ''date'' = Some (YDate d)" "valid_date d"
    using that by (simp add: pa dict_get_def fits_date)
  have 4: "published_at p = strftime now"
    if "md ''date'' = None \<or> md ''date'' = Some YNull \<or> md ''date'' = Some (YStr [])"
    using that by (auto simp: pa dict_get_def)
  have 5: "fits ''YYYY-MM-DD HH:MM:SS'' (strftime now)" if "valid_datetime now"
    using that by (rule fits_strftime)
  from 1 2 3 4 5 show ?thesis by blast
qed

theorem published_at_normalised_witness:
  "valid_datetime ex_stamp \<and> tzinfo ex_stamp = None \<and> valid_date ex_day
   \<and> valid_datetime ex_now \<and> 1000 \<le> year ex_now
   \<and> fits ''YYYY-MM-DD HH:MM:SS''
        (published_at (projr (parse_markdown_file (ex_env (\<lambda>n. ex_ok)) ex_now
           (ex_file ''post'' [''date'' \<mapsto> YDateTime ex_stamp]))))
   \<and> fits ''YYYY-MM-DD''
        (published_at (projr (parse_markdown_file (ex_env (\<lambda>n. ex_ok)) ex_now
           (ex_file ''post'' [''date'' \<mapsto> YDate ex_day]))))
   \<and> published_at (projr (parse_markdown_file (ex_env (\<lambda>n. ex_ok)) ex_now
           (ex_file ''post'' Map.empty))) = strftime ex_now
   \<and> fits ''YYYY-MM-DD HH:MM:SS'' (strftime ex_now)"
proof -
  let ?e = "ex_env (\<lambda>n. ex_ok)"
  let ?f1 = "ex_file ''post'' [''date'' \<mapsto> YDateTime ex_stamp]"
  let ?f2 = "ex_file ''post'' [''date'' \<mapsto> YDate ex_day]"
  let ?f3 = "ex_file ''post'' Map.empty"
  have v: "valid_datetime ex_stamp" "tzinfo ex_stamp = None" "valid_date ex_day"
    "valid_datetime ex_now" "1000 \<le> year ex_now"
    by (simp_all add: valid_datetime_def valid_date_def ex_stamp_def ex_day_def ex_now_def)
  have p1: "parse_markdown_file ?e ex_now ?f1 = Inr (projr (parse_markdown_file ?e ex_now ?f1))"
    by (simp add: parse_markdown_file_def ex_file_def dict_get_def Let_def)
  have p2: "parse_markdown_file ?e ex_now ?f2 = Inr (projr (parse_markdown_file ?e ex_now ?f2))"
    by (simp add: parse_markdown_file_def ex_file_def dict_get_def Let_def)
  have p3: "parse_markdown_file ?e ex_now ?f3 = Inr (projr (parse_markdown_file ?e ex_now ?f3))"
    by (simp add: parse_markdown_file_def ex_file_def dict_get_def Let_def)
  have l1: "load ?f1 = Loaded [''date'' \<mapsto> YDateTime ex_stamp] ''Hello''"
    and l2: "load ?f2 = Loaded [''date'' \<mapsto> YDate ex_day] ''Hello''"
    and l3: "load ?f3 = Loaded Map.empty ''Hello''"
    by (simp_all add: ex_file_def)
  have m1: "[''date'' \<mapsto> YDateTime ex_stamp] ''date'' = Some (YDateTime ex_stamp)"
    and m2: "[''date'' \<mapsto> YDate ex_day] ''date'' = Some (YDate ex_day)"
    and m3: "(Map.empty :: string \<rightharpoonup> yaml) ''date'' = None"
    by simp_all
  from published_at_normalised[OF p1 l1, of ex_stamp ex_day] m1 v
  have a: "fits ''YYYY-MM-DD HH:MM:SS'' (published_at (projr (parse_markdown_file ?e ex_now ?f1)))"
    by blast
  from published_at_normalised[OF p2 l2, of ex_stamp ex_day] m2 v
  have b: "fits ''YYYY-MM-DD'' (published_at (projr (parse_markdown_file ?e ex_now ?f2)))"
    by blast
  from published_at_normalised[OF p3 l3, of ex_stamp ex_day] m3 v
  have c: "published_at (projr (parse_markdown_file ?e ex_now ?f3)) = strftime ex_now"
    and d: "fits ''YYYY-MM-DD HH:MM:SS'' (strftime ex_now)"
    by blast+
  from v a b c d show ?thesis by blast
qed

section \<open>Properties of the post compiler\<close>

lemma in_dropWhile: "x \<in> set xs \<Longrightarrow> \<not> P x \<Longrightarrow> x \<in> set (dropWhile P xs)"
  by (induction xs) auto

lemma in_str_strip: "x \<in> set u \<Longrightarrow> \<not> is_space x \<Longrightarrow> x \<in> set (str_strip u)"
  unfolding str_strip_def set_rev by (intro in_dropWhile) (simp_all add: in_dropWhile)

lemma sub_runs_nonempty: "s \<noteq> [] \<Longrightarrow> sub_runs s \<noteq> []"
  by (cases s) auto

lemma slugify_nonempty:
  assumes "c \<in> set s" and "is_word c \<or> c = CHR ''-''"
  shows "slugify s \<noteq> []"
proof -
  let ?c = "lower_char c"
  from assms(1) have m: "?c \<in> set (str_lower s)" by (simp add: str_lower_def)
  from assms(2) have k: "is_word ?c \<or> ?c = CHR ''-''"
    by (simp add: is_word_lower_char hyphen_lower_char)
  then have "\<not> is_space ?c"
  proof
    assume "is_word ?c" then show ?thesis using word_not_space by blast
  next
    assume "?c = CHR ''-''" then show ?thesis by (simp only: hyphen_not_space not_False_eq_True)
  qed
  with m have "?c \<in> set (str_strip (str_lower s))" by (rule in_str_strip)
  moreover from k have "keeps ?c" unfolding keeps_def by blast
  ultimately have "?c \<in> set (sub_other (str_strip (str_lower s)))" by (simp add: sub_other_def)
  then have "sub_other (str_strip (str_lower s)) \<noteq> []" by (rule_tac notI) simp
  then show ?thesis unfolding slugify_def by (rule sub_runs_nonempty)
qed

lemma length_title_from: "length (title_from b s) = length s"
  by (induction s arbitrary: b) auto

lemma str_title_nonempty: "s \<noteq> [] \<Longrightarrow> str_title (hyphens_to_spaces s) \<noteq> []"
proof -
  assume "s \<noteq> []"
  then have "length (str_title (hyphens_to_spaces s)) \<noteq> 0"
    by (simp add: str_title_def length_title_from hyphens_to_spaces_def)
  then show ?thesis by (rule_tac notI) simp
qed

lemma is_lower_cases:
  assumes "(97 \<le> (of_char c :: nat) \<and> (of_char c :: nat) \<le> 122)
           \<or> (224 \<le> (of_char c :: nat) \<and> (of_char c :: nat) \<le> 246)
           \<or> (248 \<le> (of_char c :: nat) \<and> (of_char c :: nat) \<le> 254)"
  obtains "97 \<le> (of_char c :: nat)" "(of_char c :: nat) \<le> 122"
  | "224 \<le> (of_char c :: nat)" "(of_char c :: nat) \<le> 246"
  | "248 \<le> (of_char c :: nat)" "(of_char c :: nat) \<le> 254"
  using assms by blast

lemma is_word_title_char: "is_word (title_char c) = is_word c"
proof (cases "(97 \<le> (of_char c :: nat) \<and> (of_char c :: nat) \<le> 122)
           \<or> (224 \<le> (of_char c :: nat) \<and> (of_char c :: nat) \<le> 246)
           \<or> (248 \<le> (of_char c :: nat) \<and> (of_char c :: nat) \<le> 254)")
  case True
  have t: "title_char c = char_of ((of_char c :: nat) - 32)"
    unfolding title_char_def Let_def by (simp only: True if_True)
  from True show ?thesis
  proof (cases rule: is_lower_cases)
    case 1
    then have "65 \<le> (of_char c :: nat) - 32" "(of_char c :: nat) - 32 \<le> 90" by arith+
    with 1 show ?thesis by (simp add: t is_word_def Let_def)
  next
    case 2
    then have "192 \<le> (of_char c :: nat) - 32" "(of_char c :: nat) - 32 \<le> 214" by arith+
    with 2 show ?thesis by (simp add: t is_word_def Let_def)
  next
    case 3
    then have "216 \<le> (of_char c :: nat) - 32" "(of_char c :: nat) - 32 \<le> 222" by arith+
    with 3 show ?thesis by (simp add: t is_word_def Let_def)
  qed
next
  case False
  show ?thesis unfolding title_char_def Let_def by (simp only: False if_False)
qed

lemma title_from_word: "list_ex is_word (title_from b s) = list_ex is_word s"
  by (induction s arbitrary: b) (simp_all add: is_word_title_char is_word_lower_char)

lemma hyphens_to_spaces_word: "list_ex is_word (hyphens_to_spaces s) = list_ex is_word s"
proof -
  have "is_word (if c = CHR ''-'' then CHR '' '' else c) = is_word c" for c
    by (simp add: is_word_def)
  then show ?thesis by (induction s) (simp_all add: hyphens_to_spaces_def)
qed

lemma default_title_word:
  "list_ex is_word (str_title (hyphens_to_spaces s)) = list_ex is_word s"
  by (simp add: str_title_def title_from_word hyphens_to_spaces_word)

lemma slugify_word_nonempty: "list_ex (\<lambda>c. is_word c \<or> c = CHR ''-'') s \<Longrightarrow> slugify s \<noteq> []"
  unfolding list_ex_iff using slugify_nonempty by blast

lemma list_ex_word_weaken: "list_ex is_word s \<Longrightarrow> list_ex (\<lambda>c. is_word c \<or> c = CHR ''-'') s"
  unfolding list_ex_iff by blast

lemma parse_fields:
  assumes "parse_markdown_file e now f = Inr p" "load f = Loaded md body"
  shows "title p = dict_get md ''title'' (YStr (str_title (hyphens_to_spaces (stem f))))"
    and "slugify_value (title p) = Inr s \<Longrightarrow> slug p = dict_get md ''slug'' (YStr s)"
  using assms by (auto simp: parse_markdown_file_def Let_def split: sum.splits)

lemma slugify_marks: "slugify ''!!!'' = []"
  by code_simp

text \<open>
  Claim C5, as the specification states it, fails: a value given in the front matter is
  copied as it is, empty or not, and a title without any letter, digit, underscore or
  hyphen has the empty slug.
\<close>

theorem parse_emits_empty_title_and_slug:
  "\<not> isl (parse_markdown_file (ex_env (\<lambda>n. ex_ok)) ex_now (ex_file ''post'' [''title'' \<mapsto> YStr []]))
   \<and> title (projr (parse_markdown_file (ex_env (\<lambda>n. ex_ok)) ex_now
        (ex_file ''post'' [''title'' \<mapsto> YStr []]))) = YStr []
   \<and> slug (projr (parse_markdown_file (ex_env (\<lambda>n. ex_ok)) ex_now
        (ex_file ''post'' [''title'' \<mapsto> YStr []]))) = YStr []
   \<and> \<not> isl (parse_markdown_file (ex_env (\<lambda>n. ex_ok)) ex_now
        (ex_file ''post'' [''title'' \<mapsto> YStr ''Hello'', ''slug'' \<mapsto> YStr []]))
   \<and> \<not> nonempty_str (slug (projr (parse_markdown_file (ex_env (\<lambda>n. ex_ok)) ex_now
        (ex_file ''post'' [''title'' \<mapsto> YStr ''Hello'', ''slug'' \<mapsto> YStr []]))))
   \<and> \<not> isl (parse_markdown_file (ex_env (\<lambda>n. ex_ok)) ex_now
        (ex_file ''post'' [''title'' \<mapsto> YStr ''!!!'']))
   \<and> \<not> nonempty_str (slug (projr (parse_markdown_file (ex_env (\<lambda>n. ex_ok)) ex_now
        (ex_file ''post'' [''title'' \<mapsto> YStr ''!!!'']))))"
  by (simp add: parse_markdown_file_def ex_file_def dict_get_def Let_def slugify_marks)
    (simp add: slugify_def sub_other_def str_strip_def str_lower_def)

text \<open>
  Claim C5, amended. For every file that \<open>parse_markdown_file\<close> accepts: a title or a
  slug given in the front matter is emitted as it is; a title derived from the file name
  is a non-empty string when the stem is not empty; a slug derived from the title is a
  non-empty string when the title contains a letter, a digit, an underscore or a hyphen,
  and so it is when neither is given and the stem contains a letter, a digit or an
  underscore.
\<close>

theorem emitted_title_and_slug:
  assumes "parse_markdown_file e now f = Inr p" and "load f = Loaded md body"
  shows "(md ''title'' = Some v \<longrightarrow> title p = v)
       \<and> (md ''slug'' = Some v \<longrightarrow> slug p = v)
       \<and> (md ''title'' = None \<and> stem f \<noteq> [] \<longrightarrow> nonempty_str (title p))
       \<and> (md ''slug'' = None \<and> title p = YStr s \<and> list_ex (\<lambda>c. is_word c \<or> c = CHR ''-'') s
            \<longrightarrow> nonempty_str (slug p))
       \<and> (md ''slug'' = None \<and> md ''title'' = None \<and> list_ex is_word (stem f)
            \<longrightarrow> nonempty_str (title p) \<and> nonempty_str (slug p))"
proof -
  note t = parse_fields(1)[OF assms]
  have sl: "slug p = dict_get md ''slug'' (YStr (slugify u))" if "title p = YStr u" for u
    using parse_fields(2)[OF assms, of "slugify u"] that by simp
  have 1: "title p = v" if "md ''title'' = Some v"
    using that by (simp add: t dict_get_def)
  have 2: "slug p = v" if "md ''slug'' = Some v"
    using assms that by (auto simp: parse_markdown_file_def Let_def dict_get_def split: sum.splits)
  have 3: "nonempty_str (title p)" if "md ''title'' = None" "stem f \<noteq> []"
    using that by (simp add: t dict_get_def str_title_nonempty)
  have 4: "nonempty_str (slug p)"
    if "md ''slug'' = None" "title p = YStr s" "list_ex (\<lambda>c. is_word c \<or> c = CHR ''-'') s"
    using that sl[of s] by (simp add: dict_get_def slugify_word_nonempty)
  have 5: "nonempty_str (title p) \<and> nonempty_str (slug p)"
    if "md ''slug'' = None" "md ''title'' = None" "list_ex is_word (stem f)"
  proof -
    let ?d = "str_title (hyphens_to_spaces (stem f))"
    from that(2) have tp: "title p = YStr ?d" by (simp add: t dict_get_def)
    from that(3) have w: "list_ex (\<lambda>c. is_word c \<or> c = CHR ''-'') ?d"
      by (intro list_ex_word_weaken) (simp add: default_title_word)
    from that(3) have "stem f \<noteq> []" by (rule_tac notI) simp
    with that(2) have "nonempty_str (title p)" by (rule 3)
    moreover from that(1) tp w have "nonempty_str (slug p)"
      using sl[of ?d] by (simp add: dict_get_def slugify_word_nonempty)
    ultimately show ?thesis ..
  qed
  from 1 2 3 4 5 show ?thesis by blast
qed

theorem emitted_title_and_slug_witness:
  "stem (ex_file ''my-first-post'' Map.empty) \<noteq> []
   \<and> list_ex is_word (stem (ex_file ''my-first-post'' Map.empty))
   \<and> nonempty_str (title (projr (parse_markdown_file (ex_env (\<lambda>n. ex_ok)) ex_now
        (ex_file ''my-first-post'' Map.empty))))
   \<and> nonempty_str (slug (projr (parse_markdown_file (ex_env (\<lambda>n. ex_ok)) ex_now
        (ex_file ''my-first-post'' Map.empty))))
   \<and> title (projr (parse_markdown_file (ex_env (\<lambda>n. ex_ok)) ex_now
        (ex_file ''post'' [''title'' \<mapsto> YStr ''Hello'']))) = YStr ''Hello''
   \<and> list_ex (\<lambda>c. is_word c \<or> c = CHR ''-'') ''Hello''
   \<and> nonempty_str (slug (projr (parse_markdown_file (ex_env (\<lambda>n. ex_ok)) ex_now
        (ex_file ''post'' [''title'' \<mapsto> YStr ''Hello'']))))
   \<and> slug (projr (parse_markdown_file (ex_env (\<lambda>n. ex_ok)) ex_now
        (ex_file ''post'' [''slug'' \<mapsto> YStr ''given''])))  = YStr ''given''"
proof -
  let ?e = "ex_env (\<lambda>n. ex_ok)"
  let ?f1 = "ex_file ''my-first-post'' Map.empty"
  let ?f2 = "ex_file ''post'' [''title'' \<mapsto> YStr ''Hello'']"
  let ?f3 = "ex_file ''post'' [''slug'' \<mapsto> YStr ''given'']"
  have p1: "parse_markdown_file ?e ex_now ?f1 = Inr (projr (parse_markdown_file ?e ex_now ?f1))"
    by (simp add: parse_markdown_file_def ex_file_def dict_get_def Let_def)
  have p2: "parse_markdown_file ?e ex_now ?f2 = Inr (projr (parse_markdown_file ?e ex_now ?f2))"
    by (simp add: parse_markdown_file_def ex_file_def dict_get_def Let_def)
  have p3: "parse_markdown_file ?e ex_now ?f3 = Inr (projr (parse_markdown_file ?e ex_now ?f3))"
    by (simp add: parse_markdown_file_def ex_file_def dict_get_def Let_def)
  have l1: "load ?f1 = Loaded Map.empty ''Hello''"
    and l2: "load ?f2 = Loaded [''title'' \<mapsto> YStr ''Hello''] ''Hello''"
    and l3: "load ?f3 = Loaded [''slug'' \<mapsto> YStr ''given''] ''Hello''"
    by (simp_all add: ex_file_def)
  have s1: "stem ?f1 \<noteq> []" and w1: "list_ex is_word (stem ?f1)"
    by (simp_all add: ex_file_def is_word_def)
  have w2: "list_ex (\<lambda>c. is_word c \<or> c = CHR ''-'') ''Hello''"
    by (simp add: is_word_def)
  have m1: "(Map.empty :: string \<rightharpoonup> yaml) ''title'' = None"
    "(Map.empty :: string \<rightharpoonup> yaml) ''slug'' = None"
    and m2: "[''title'' \<mapsto> YStr ''Hello''] ''title'' = Some (YStr ''Hello'')"
    "[''title'' \<mapsto> YStr ''Hello''] ''slug'' = None"
    and m3: "[''slug'' \<mapsto> YStr ''given''] ''slug'' = Some (YStr ''given'')"
    by simp_all
  from emitted_title_and_slug[OF p1 l1, of YNull "[]"] m1 s1 w1
  have a: "nonempty_str (title (projr (parse_markdown_file ?e ex_now ?f1)))"
    "nonempty_str (slug (projr (parse_markdown_file ?e ex_now ?f1)))"
    by blast+
  from emitted_title_and_slug[OF p2 l2, of "YStr ''Hello''" "''Hello''"] m2
  have b: "title (projr (parse_markdown_file ?e ex_now ?f2)) = YStr ''Hello''"
    by blast
  from emitted_title_and_slug[OF p2 l2, of "YStr ''Hello''" "''Hello''"] m2 b w2
  have c: "nonempty_str (slug (projr (parse_markdown_file ?e ex_now ?f2)))"
    by blast
  from emitted_title_and_slug[OF p3 l3, of "YStr ''given''" "[]"] m3
  have d: "slug (projr (parse_markdown_file ?e ex_now ?f3)) = YStr ''given''"
    by blast
  from s1 w1 w2 a b c d show ?thesis by blast
qed

section \<open>Properties of the publishing client\<close>

lemma sent_print: "sent (print ls w) = sent w"
  by (simp add: print_def)


lemma report_failure_sent: "sent (snd (report_failure what r result w)) = sent w"
  by (simp add: report_failure_def Let_def sent_print split: sum.splits)

lemma report_failure_dict:
  "fst (report_failure what r (JObj members) w) = Inr False"
  by (simp add: report_failure_def Let_def)


lemma publish_post_unsendable:
  assumes "configured e" and "\<not> serializable (outgoing d p)"
  shows "publish_post e p d w = (Inl TypeError, w)"
proof -
  from assms(1) have c: "\<not> (API_URL e = [] \<or> API_KEY e = [])" by (simp add: configured_def)
  from assms(2) have s: "\<not> serializable (if d then p\<lparr>is_published := YBool False\<rparr> else p)"
    by (simp add: outgoing_def)
  show ?thesis
    unfolding publish_post_def by (simp only: c s if_False if_True Let_def not_False_eq_True)
qed

lemma publish_post_sent:
  assumes "configured e" and "serializable (outgoing d p)"
  shows "sent (snd (publish_post e p d w)) = sent w @ [create_request e (outgoing d p)]"
proof -
  from assms(1) have c: "\<not> (API_URL e = [] \<or> API_KEY e = [])" by (simp add: configured_def)
  from assms(2) have s: "serializable (if d then p\<lparr>is_published := YBool False\<rparr> else p)"
    by (simp add: outgoing_def)
  show ?thesis
    unfolding publish_post_def round_trip_def create_request_def outgoing_def
    by (simp only: c s if_False Let_def split_conv not_True_eq_False)
      (simp add: sent_print report_failure_sent split: outcome.splits option.splits sum.splits)
qed

lemma publish_post_result:
  assumes "configured e" and "dict_reply (network e (length (sent w)))"
    and "serializable (outgoing d p)"
  shows "fst (publish_post e p d w) = Inr (accepted (network e (length (sent w))))"
proof -
  from assms(1) have c: "\<not> (API_URL e = [] \<or> API_KEY e = [])" by (simp add: configured_def)
  from assms(3) have s: "serializable (if d then p\<lparr>is_published := YBool False\<rparr> else p)"
    by (simp add: outgoing_def)
  show ?thesis
  proof (cases "network e (length (sent w))")
    case (RequestException x)
    then show ?thesis
      unfolding publish_post_def round_trip_def
      by (simp only: c s if_False Let_def split_conv not_True_eq_False) (simp add: accepted_def)
  next
    case (Response r)
    show ?thesis
    proof (cases "body_json r")
      case None
      with Response show ?thesis
        unfolding publish_post_def round_trip_def
        by (simp only: c s if_False Let_def split_conv not_True_eq_False) (simp add: accepted_def)
    next
      case (Some j)
      with assms(2) Response obtain members where j: "j = JObj members"
        by (cases j) (simp_all add: dict_reply_def)
      with Some Response show ?thesis
        unfolding publish_post_def round_trip_def
        by (simp only: c s if_False Let_def split_conv not_True_eq_False)
          (simp add: accepted_def report_failure_dict)
    qed
  qed
qed

text \<open>
  Claim C7. With \<open>draft\<close> set, the request that \<open>publish_post\<close> sends to the create
  endpoint carries the record with \<open>is_published\<close> replaced by \<open>False\<close>, whatever the
  record and whatever the value of the field before; and it is the only request of the
  call (none at all goes out for a record that cannot be serialised).
\<close>

theorem draft_forces_unpublished:
  assumes "API_URL e \<noteq> []" and "API_KEY e \<noteq> []"
  shows "sent (snd (publish_post e post_data True w))
           = (if serializable (post_data\<lparr>is_published := YBool False\<rparr>)
              then sent w @ [\<lparr>verb = POST, target = API_URL e @ ''?action=create'',
                                payload = Some (post_data\<lparr>is_published := YBool False\<rparr>),
                                headers = [(''Content-Type'', ''application/json''),
                                           (''X-API-KEY'', API_KEY e)]\<rparr>]
              else sent w)"
proof -
  from assms have c: "configured e" by (simp add: configured_def)
  show ?thesis
  proof (cases "serializable (post_data\<lparr>is_published := YBool False\<rparr>)")
    case True
    then have "serializable (outgoing True post_data)" by (simp add: outgoing_def)
    from publish_post_sent[OF c this, of w] True show ?thesis
      by (simp add: create_request_def outgoing_def)
  next
    case False
    then have "\<not> serializable (outgoing True post_data)" by (simp add: outgoing_def)
    from publish_post_unsendable[OF c this, of w] False show ?thesis by simp
  qed
qed

theorem draft_forces_unpublished_witness:
  "API_URL (ex_env (\<lambda>n. ex_ok)) \<noteq> [] \<and> API_KEY (ex_env (\<lambda>n. ex_ok)) \<noteq> []
   \<and> is_published ex_post = YBool True
   \<and> map (\<lambda>r. map_option is_published (payload r))
        (sent (snd (publish_post (ex_env (\<lambda>n. ex_ok)) ex_post True ex_world)))
      = [Some (YBool False)]"
proof -
  have a: "API_URL (ex_env (\<lambda>n. ex_ok)) \<noteq> []" and b: "API_KEY (ex_env (\<lambda>n. ex_ok)) \<noteq> []"
    by (simp_all add: ex_env_def)
  have c: "is_published ex_post = YBool True" by (simp add: ex_post_def)
  have s: "serializable (ex_post\<lparr>is_published := YBool False\<rparr>)"
    by (simp add: serializable_def ex_post_def)
  from draft_forces_unpublished[OF a b, of ex_post ex_world] a b c s show ?thesis
    by (simp add: ex_world_def)
qed

text \<open>
  Claim C9 does not hold of the code. A reply whose body is valid JSON but not an
  object (here the array \<open>[]\<close> with status 200, and a string with status 500) passes
  \<open>response.json()\<close>, and then \<open>result.get\<close> raises \<open>AttributeError\<close>, which nothing in
  \<open>publish_post\<close> catches. Nor does it catch the \<open>TypeError\<close> of a record that cannot
  be serialised, such as one whose front matter has \<open>excerpt: 2024-03-01\<close>.
\<close>

theorem publish_post_raises_on_json_array:
  "fst (publish_post (ex_env (\<lambda>n. ex_reply 200 (Some (JArr [])))) ex_post False ex_world)
     = Inl AttributeError
   \<and> fst (publish_post (ex_env (\<lambda>n. ex_reply 500 (Some (JStr ''Bad gateway'')))) ex_post False
        ex_world) = Inl AttributeError
   \<and> fst (publish_post (ex_env (\<lambda>n. ex_ok)) (ex_post\<lparr>excerpt := YDate ex_day\<rparr>) False ex_world)
     = Inl TypeError"
  by (simp add: publish_post_def round_trip_def ex_env_def ex_reply_def ex_world_def
      report_failure_def print_def Let_def serializable_def ex_post_def)

text \<open>
  Claim C1 does not hold of the code. The statements that print the table, the total and
  the \<open>error\<close> field are unreachable, so a reply with a \<open>posts\<close> key prints nothing, and
  neither does one with an \<open>error\<close> key.
\<close>

theorem list_posts_prints_nothing:
  "printed (list_posts (ex_env (\<lambda>n. ex_reply 200 (Some ex_listing))) ex_world) = []
   \<and> printed (list_posts (ex_env (\<lambda>n. ex_reply 200 (Some (JObj [(''error'', JStr ''no database'')]))))
        ex_world) = []"
  by (simp add: list_posts_def round_trip_def ex_env_def ex_reply_def ex_world_def Let_def)


section \<open>Properties of a run\<close>

lemma publish_post_step:
  assumes "configured e" and "dict_reply (network e (length (sent w)))"
    and "serializable (outgoing d p)"
  obtains w1 where "publish_post e p d w = (Inr (accepted (network e (length (sent w)))), w1)"
    and "length (sent w1) = Suc (length (sent w))"
proof -
  let ?r = "publish_post e p d w"
  have "fst ?r = Inr (accepted (network e (length (sent w))))"
    by (rule publish_post_result[OF assms])
  moreover have "length (sent (snd ?r)) = Suc (length (sent w))"
    by (simp add: publish_post_sent[OF assms(1,3)])
  ultimately show ?thesis using that[of "snd ?r"] by (metis prod.collapse)
qed


lemma parse_accepts:
  assumes "ready e d f"
  shows "\<exists>p. parse_markdown_file e now f = Inr p \<and> serializable (outgoing d p)"
  using assms unfolding ready_def by (cases "parse_markdown_file e now f") (auto split: sum.splits)

text \<open>The replies to the requests of a batch of \<open>n\<close> files that starts in the state \<open>w\<close>.\<close>

lemma replies_Suc:
  "map (network e) [k..<k + Suc n] = network e k # map (network e) [Suc k..<Suc k + n]"
proof -
  have "[k..<k + Suc n] = k # [Suc k..<Suc k + n]"
    by (simp add: upt_conv_Cons del: upt_Suc)
  then show ?thesis by (simp only: list.map)
qed

lemma publish_all_counts:
  assumes "configured e"
    and "\<forall>f\<in>set files. ready e d f"
    and "\<forall>i<length files. dict_reply (network e (length (sent w) + i))"
  shows "fst (publish_all e d files (s, f) w)
           = Inr (s + length (filter accepted
                      (map (network e) [length (sent w)..<length (sent w) + length files])),
                  f + length (filter (\<lambda>r. \<not> accepted r)
                      (map (network e) [length (sent w)..<length (sent w) + length files])))"
  using assms(2,3)
proof (induction files arbitrary: s f w)
  case Nil
  show ?case by simp
next
  case (Cons x xs)
  let ?k = "length (sent w)"
  from Cons.prems(1) obtain p
    where p: "parse_markdown_file e (clock e (s + f)) x = Inr p"
      and sp: "serializable (outgoing d p)"
    using parse_accepts[of e d x "clock e (s + f)"] by auto
  from Cons.prems(2) have d0: "dict_reply (network e ?k)" by force
  from publish_post_step[OF assms(1) d0 sp] obtain w1
    where w1: "publish_post e p d w = (Inr (accepted (network e ?k)), w1)"
      and l1: "length (sent w1) = Suc ?k"
    by blast
  from Cons.prems(1) have pr: "\<forall>f\<in>set xs. ready e d f" by simp
  have dr: "\<forall>i<length xs. dict_reply (network e (length (sent w1) + i))"
  proof (intro allI impI)
    fix i assume "i < length xs"
    then have "Suc i < length (x # xs)" by simp
    with Cons.prems(2) have "dict_reply (network e (?k + Suc i))" by blast
    then show "dict_reply (network e (length (sent w1) + i))" by (simp add: l1)
  qed
  note ih = Cons.IH[OF pr dr]
  have up: "map (network e) [?k..<?k + length (x # xs)]
              = network e ?k # map (network e) [Suc ?k..<Suc ?k + length xs]"
    using replies_Suc[of e ?k "length xs"] by (simp del: upt_Suc)
  show ?case
  proof (cases "accepted (network e ?k)")
    case True
    with p w1 ih[of "s + 1" f] show ?thesis
      by (simp only: up) (simp add: l1)
  next
    case False
    with p w1 ih[of s "f + 1"] show ?thesis
      by (simp only: up) (simp add: l1)
  qed
qed





lemma length_batch_requests: "length (batch_requests e d files) = length files"
  by (simp add: batch_requests_def)

lemma ex_files_ready: "\<forall>f\<in>set ex_files. ready (ex_env net) False f"
  by (simp add: ex_files_def ready_def parse_markdown_file_def ex_file_def dict_get_def Let_def
      outgoing_def serializable_def)




text \<open>
  Claim C3. A directory of four markdown files, of which three are published and one is
  refused by the remote API without an exception: \<open>process_path\<close> returns \<open>(3, 1)\<close> and
  \<open>main\<close> exits with status 1.
\<close>

theorem three_published_one_failed:
  assumes "length files = 4"
    and "\<forall>f\<in>set files. ready e (draft_arg a) f"
    and "API_URL e \<noteq> []" and "API_KEY e \<noteq> []"
    and "\<forall>i<4. dict_reply (network e (length (sent w) + i))"
    and "length (filter accepted (map (network e) [length (sent w)..<length (sent w) + 4])) = 3"
    and "\<not> list_arg a" and "given (delete_arg a) = None"
    and "given (path_arg a) = Some p" and "fs p = Directory files"
  shows "fst (process_path e (Directory files) (draft_arg a) w) = Inr (3, 1)
       \<and> fst (main e fs a w) = Inr 1"
proof -
  from assms(3,4) have cfg: "configured e" by (simp add: configured_def)
  let ?rs = "map (network e) [length (sent w)..<length (sent w) + 4]"
  have "length (filter accepted ?rs) + length (filter (\<lambda>r. \<not> accepted r) ?rs) = length ?rs"
    by (rule sum_length_filter_compl)
  with assms(6) have no: "length (filter (\<lambda>r. \<not> accepted r) ?rs) = 1" by simp
  have counts: "fst (publish_all e (draft_arg a) files (0, 0) v) = Inr (3, 1)"
    if "sent v = sent w" for v
    using publish_all_counts[OF cfg assms(2), of v 0 0] assms(1,5,6) no that by simp
  have 1: "fst (process_path e (Directory files) (draft_arg a) w) = Inr (3, 1)"
    using counts[of w] by (simp add: process_path_def)
  let ?v = "print [Publishing (if draft_arg a then ''draft'' else ''post'') p] w"
  have "fst (process_path e (Directory files) (draft_arg a) ?v) = Inr (3, 1)"
    using counts[of ?v] by (simp add: process_path_def sent_print)
  then obtain w1 where "process_path e (Directory files) (draft_arg a) ?v = (Inr (3, 1), w1)"
    by (metis prod.collapse)
  with assms(7-10) have 2: "fst (main e fs a w) = Inr 1" by (simp add: main_def)
  from 1 2 show ?thesis ..
qed

theorem three_published_one_failed_witness:
  "length ex_files = 4
   \<and> list_all (ready (ex_env ex_net) False) ex_files
   \<and> API_URL (ex_env ex_net) \<noteq> [] \<and> API_KEY (ex_env ex_net) \<noteq> []
   \<and> length (filter accepted (map (network (ex_env ex_net)) [0, 1, 2, 3])) = 3
   \<and> \<not> accepted (network (ex_env ex_net) 2)
   \<and> fst (process_path (ex_env ex_net) (Directory ex_files) False ex_world) = Inr (3, 1)
   \<and> fst (main (ex_env ex_net) (\<lambda>p. Directory ex_files) (ex_args ''posts'') ex_world) = Inr 1"
proof -
  let ?e = "ex_env ex_net"
  have l: "length ex_files = 4" by (simp add: ex_files_def)
  have dr: "draft_arg (ex_args ''posts'') = False" by (simp add: ex_args_def)
  from ex_files_ready[of ex_net]
  have a: "\<forall>f\<in>set ex_files. ready ?e (draft_arg (ex_args ''posts'')) f" by (simp only: dr)
  have u: "API_URL ?e \<noteq> []" and k: "API_KEY ?e \<noteq> []" by (simp_all add: ex_env_def)
  have n: "network ?e = ex_net" by (simp add: ex_env_def)
  have acc: "accepted ex_ok" "\<not> accepted ex_refused"
    by (simp_all add: accepted_def ex_ok_def ex_refused_def ex_reply_def truthy_opt_def)
  have d: "\<forall>i<4. dict_reply (network ?e (length (sent ex_world) + i))"
    by (simp add: n ex_net_def dict_reply_def ex_ok_def ex_refused_def ex_reply_def)
  have up: "[length (sent ex_world)..<length (sent ex_world) + 4] = [0, 1, 2, 3]"
    by (simp add: ex_world_def upt_rec)
  have c: "length (filter accepted (map (network ?e) [0, 1, 2, 3])) = 3"
    by (simp add: n ex_net_def acc)
  then have c': "length (filter accepted
      (map (network ?e) [length (sent ex_world)..<length (sent ex_world) + 4])) = 3"
    by (simp only: up)
  have r: "\<not> accepted (network ?e 2)" by (simp add: n ex_net_def acc)
  have g: "\<not> list_arg (ex_args ''posts'')" "given (delete_arg (ex_args ''posts'')) = None"
    "given (path_arg (ex_args ''posts'')) = Some ''posts''"
    by (simp_all add: ex_args_def)
  from ex_files_ready[of ex_net] have a': "list_all (ready ?e False) ex_files"
    by (simp add: list_all_iff)
  from three_published_one_failed[OF l a u k d c' g refl] l a' u k c r dr
  show ?thesis by simp
qed

text \<open>
  Claim C10. A regular file whose lowercased suffix is neither \<open>.md\<close> nor \<open>.markdown\<close>
  is skipped: \<open>process_path\<close> only prints the notice and returns \<open>(0, 0)\<close>, whatever the
  content of the file, no request is sent, and \<open>main\<close> exits with status 0.
\<close>

theorem non_markdown_file_skipped:
  assumes "str_lower (suffix f) \<noteq> ''.md''" and "str_lower (suffix f) \<noteq> ''.markdown''"
    and "\<not> list_arg a" and "given (delete_arg a) = None"
    and "given (path_arg a) = Some p" and "fs p = RegularFile f"
  shows "process_path e (RegularFile f) draft w
           = (Inr (0, 0), print [Skipping (path_name f)] w)
       \<and> main e fs a w
           = (Inr 0, print [Publishing (if draft_arg a then ''draft'' else ''post'') p,
                            Skipping (path_name f), Results 0 0] w)
       \<and> sent (snd (main e fs a w)) = sent w"
proof -
  have 1: "process_path e (RegularFile f) d v = (Inr (0, 0), print [Skipping (path_name f)] v)"
    for d v
    using assms(1,2) by (simp add: process_path_def)
  have 2: "main e fs a w
           = (Inr 0, print [Publishing (if draft_arg a then ''draft'' else ''post'') p,
                            Skipping (path_name f), Results 0 0] w)"
    using assms(3-6) by (simp add: main_def 1 print_def)
  from 1[of draft w] 2 show ?thesis by (simp add: sent_print)
qed

theorem non_markdown_file_skipped_witness:
  "str_lower (suffix (ex_broken\<lparr>suffix := ''.TXT''\<rparr>)) = ''.txt''
   \<and> main (ex_env ex_net) (\<lambda>p. RegularFile (ex_broken\<lparr>suffix := ''.TXT''\<rparr>))
        (ex_args ''notes.TXT'') ex_world
      = (Inr 0, \<lparr>printed = [Publishing ''post'' ''notes.TXT'', Skipping ''posts/a-broken.md'',
                             Results 0 0], sent = []\<rparr>)"
proof -
  let ?f = "ex_broken\<lparr>suffix := ''.TXT''\<rparr>"
  have s: "str_lower (suffix ?f) = ''.txt''" by code_simp
  have a: "str_lower (suffix ?f) \<noteq> ''.md''" and b: "str_lower (suffix ?f) \<noteq> ''.markdown''"
    by (simp_all only: s) simp_all
  have g: "\<not> list_arg (ex_args ''notes.TXT'')" "given (delete_arg (ex_args ''notes.TXT'')) = None"
    "given (path_arg (ex_args ''notes.TXT'')) = Some ''notes.TXT''"
    by (simp_all add: ex_args_def)
  from non_markdown_file_skipped[OF a b g refl, of "ex_env ex_net" False ex_world] s
  show ?thesis by (simp add: print_def ex_world_def ex_args_def ex_broken_def)
qed

end
